theory Spec2Isabelle
  imports Main
begin

section \<open>Go strings\<close>

text \<open>
  A Go string is a sequence of bytes: \<^typ>\<open>string\<close> here. \<open>strings.HasPrefix\<close> and
  \<open>strings.HasSuffix\<close> compare lengths and then a slice.
\<close>

definition HasPrefix :: "string \<Rightarrow> string \<Rightarrow> bool" where
  "HasPrefix s p = (length p \<le> length s \<and> take (length p) s = p)"

definition HasSuffix :: "string \<Rightarrow> string \<Rightarrow> bool" where
  "HasSuffix s x = (length x \<le> length s \<and> drop (length s - length x) s = x)"

abbreviation NL :: char where
  "NL \<equiv> CHR 0x0A"

abbreviation CR :: char where
  "CR \<equiv> CHR 0x0D"

section \<open>The constants of the term package\<close>

definition HtmlTag :: string where
  "HtmlTag = ''==========76ADCBF0-980B-4C05-951F-63340F35E9C==========''"

definition MaxBuffersize :: nat where
  "MaxBuffersize = 1024 * 1024 * 1024"

section \<open>The line scanner\<close>

text \<open>
  \<open>internalHTML\<close> reads its input through a \<open>bufio.Scanner\<close> with the default split
  function \<open>ScanLines\<close> and the buffer limit \<open>sc.Buffer(nil, MaxBuffersize)\<close>. A line
  ends at a newline; one carriage return before the end of the line is dropped
  (\<open>dropCR\<close>); a last line without a newline is returned when it is not empty. The
  scanner's buffer never grows beyond \<open>MaxBuffersize\<close> bytes, so it finds the end of a
  line only when the line is shorter than that; otherwise \<open>Scan\<close> reports
  \<open>ErrTooLong\<close> by returning false and the loop over the lines ends there.
\<close>

definition dropCR :: "string \<Rightarrow> string" where
  "dropCR data = (if data \<noteq> [] \<and> last data = CR then butlast data else data)"

function scanLines :: "string \<Rightarrow> string list" where
  "scanLines [] = []"
| "scanLines (c # cs) =
     (let line = takeWhile (\<lambda>x. x \<noteq> NL) (c # cs);
          rest = dropWhile (\<lambda>x. x \<noteq> NL) (c # cs)
      in if MaxBuffersize \<le> length line then []
         else dropCR line # scanLines (drop 1 rest))"
  by pat_completeness auto
termination
proof (relation "measure length")
  show "wf (measure length)" by simp
next
  fix c :: char and cs line rest
  assume "rest = dropWhile (\<lambda>x. x \<noteq> NL) (c # cs)"
  moreover have "length (dropWhile (\<lambda>x. x \<noteq> NL) (c # cs)) \<le> Suc (length cs)"
    using length_dropWhile_le [of "\<lambda>x. x \<noteq> NL" "c # cs"] by simp
  ultimately show "(drop 1 rest, c # cs) \<in> measure length"
    by (cases rest) auto
qed

section \<open>The converter of lines into HTML tokens\<close>

text \<open>
  The converter yields strings. The model records which \<open>yield\<close> of the source produced
  each of them: \<open>tokenText\<close> gives the string that was yielded. The two local variables
  of \<open>internalHTML\<close> that \<open>convertLine\<close> captures are the record \<open>conv\<close>.
  The model describes a consumer that takes every token (as \<open>slices.Collect\<close> and the
  loops of \<open>Open\<close> do); a consumer that stops early receives a prefix of the sequence.
\<close>

datatype token = PagePrefix | PreOpen | PreClose | HtmlLine string | TextLine string | PageSuffix

record conv =
  inHtml :: bool
  isFirstTextLine :: bool

definition convertLine :: "string \<Rightarrow> conv \<Rightarrow> token list \<times> conv" where
  "convertLine line st =
     (if HasSuffix line HtmlTag then
        ((if \<not> inHtml st \<and> \<not> isFirstTextLine st then [PreClose] else []),
         st\<lparr>inHtml := \<not> inHtml st, isFirstTextLine := True\<rparr>)
      else if inHtml st then ([HtmlLine line], st)
      else ((if isFirstTextLine st then [PreOpen] else []) @ [TextLine line],
            st\<lparr>isFirstTextLine := False\<rparr>))"

fun convertLines :: "string list \<Rightarrow> conv \<Rightarrow> token list \<times> conv" where
  "convertLines [] st = ([], st)"
| "convertLines (l # ls) st =
     (case convertLine l st of (out, st') \<Rightarrow>
        (case convertLines ls st' of (outs, st'') \<Rightarrow> (out @ outs, st'')))"


section \<open>The page around the tokens\<close>

text \<open>The style sheets and the script of \<open>styles.go\<close>, byte for byte.\<close>

definition BodyStyle :: string where
  "BodyStyle = concat
     [''\<newline>'',
      ''html, body {\<newline>'',
      [CHR 0x09] @ ''/* enable top level elements in body to take up the full height */\<newline>'',
      [CHR 0x09] @ ''height: 100%;\<newline>'',
      ''}\<newline>'',
      ''body {\<newline>'',
      [CHR 0x09] @ ''/* remove default margin */\<newline>'',
      [CHR 0x09] @ ''margin: 0;\<newline>'',
      ''\<newline>'',
      [CHR 0x09] @ ''/* slightly off-white background color */\<newline>'',
      [CHR 0x09] @ ''background-color: #f8f8f8;\<newline>'',
      ''}\<newline>'']"

definition IframeStyle :: string where
  "IframeStyle = concat
     [''\<newline>'',
      ''iframe {\<newline>'',
      ''    /* transparent background will make a iframe more like a div */\<newline>'',
      [CHR 0x09] @ ''background-color: transparent;\<newline>'',
      ''\<newline>'',
      [CHR 0x09] @ ''/* remove border */\<newline>'',
      [CHR 0x09] @ ''border: none;\<newline>'',
      ''}\<newline>'',
      ''iframe.echart {\<newline>'',
      ''    /* set a minimum width for echart */\<newline>'',
      ''    min-width: 916px;\<newline>'',
      ''}\<newline>'']"

definition BlockStyle :: string where
  "BlockStyle = concat
     [''\<newline>'',
      ''div.goterm-row {\<newline>'',
      ''    /* Center the content */\<newline>'',
      ''    display: flex;\<newline>'',
      ''    justify-content: space-around;\<newline>'',
      ''    align-items: center;\<newline>'',
      ''\<newline>'',
      ''    /* Scroll on x-axis */\<newline>'',
      ''    overflow-x: auto;\<newline>'',
      ''    overflow-y: hidden;\<newline>'',
      ''\<newline>'',
      ''    /* Default background color */\<newline>'',
      ''    background-color: white;\<newline>'',
      ''}\<newline>'',
      ''\<newline>'',
      ''div.goterm-box {\<newline>'',
      ''    /* Respect the width of the child element */\<newline>'',
      ''    flex: 0 0 auto;\<newline>'',
      ''\<newline>'',
      ''    /* User can override the width and height */\<newline>'',
      ''    width: auto;\<newline>'',
      ''    height: auto;\<newline>'',
      ''\<newline>'',
      ''    /* Center the content when it'' @ [CHR 0x27] @ ''s smaller */\<newline>'',
      ''    display: flex;\<newline>'',
      ''    justify-content: left;\<newline>'',
      ''    align-items: center;\<newline>'',
      ''\<newline>'',
      ''    /* No scrollbars */\<newline>'',
      ''    overflow:hidden;\<newline>'',
      ''}\<newline>'',
      ''  \<newline>'',
      ''div.goterm-box > :first-child {\<newline>'',
      ''    /* Override the width and height */\<newline>'',
      ''    width: 100%;\<newline>'',
      ''    height: 100%;\<newline>'',
      ''}\<newline>'']"

definition TextStyle :: string where
  "TextStyle = concat
     [''\<newline>'',
      ''pre.goterm {\<newline>'',
      ''    /* Background color similar to modern terminals */\<newline>'',
      ''    background-color: #1e1e1e;\<newline>'',
      ''    \<newline>'',
      ''    /* Text color with 95% brightness using HSL for modern browsers */\<newline>'',
      ''    color: hsl(0deg 0% 95%);\<newline>'',
      ''    \<newline>'',
      ''    /* Modern font settings */\<newline>'',
      ''    font-family: monaco, monospace, '' @ [CHR 0x27] @ ''Consolas'' @ [CHR 0x27] @ '', '' @ [CHR 0x27] @ ''Courier New'' @ [CHR 0x27] @ '';\<newline>'',
      ''    font-size: 1rem;\<newline>'',
      ''    line-height: 1.5;\<newline>'',
      ''\<newline>'',
      [CHR 0x09] @ ''/* Remove default margin */\<newline>'',
      [CHR 0x09] @ ''margin: 0;\<newline>'',
      ''    \<newline>'',
      ''    /* Padding for better spacing */\<newline>'',
      ''    padding: 0.5rem;\<newline>'',
      ''    \<newline>'',
      ''    /* Border to simulate a modern terminal window */\<newline>'',
      ''    border: 1px solid #333;\<newline>'',
      ''\<newline>'',
      ''    /* Modern text handling */\<newline>'',
      ''    white-space: pre-wrap;\<newline>'',
      ''    word-break: break-all;\<newline>'',
      ''    \<newline>'',
      ''    /* Cursor style for interactivity feel */\<newline>'',
      ''    cursor: text;\<newline>'',
      ''\<newline>'',
      ''    /* Modern shadow for depth */\<newline>'',
      ''    box-shadow: 0 0 10px rgba(0, 0, 0, 0.5);\<newline>'',
      ''    \<newline>'',
      ''    /* Modern border-radius for a softer look */\<newline>'',
      ''    border-radius: 0.25rem;\<newline>'',
      ''\<newline>'',
      ''    /* Optional: Custom scrollbar for a more native look */\<newline>'',
      ''    overflow-y: auto;\<newline>'',
      ''    scrollbar-width: thin;\<newline>'',
      ''    scrollbar-color: #888 #1e1e1e;\<newline>'',
      ''}\<newline>'']"

definition ScrollScript :: string where
  "ScrollScript = concat
     [''\<newline>'',
      ''<script>\<newline>'',
      ''    let autoScroll = true;\<newline>'',
      ''    let lastScrollTop = 0;\<newline>'',
      ''\<newline>'',
      ''    // Function to scroll to the bottom of the page\<newline>'',
      ''    function scrollToBottom() {\<newline>'',
      ''        if (autoScroll) {\<newline>'',
      [CHR 0x09, CHR 0x09, CHR 0x09] @ ''window.scrollTo({\<newline>'',
      ''                top: document.body.scrollHeight,\<newline>'',
      ''                behavior: '' @ [CHR 0x27] @ ''smooth'' @ [CHR 0x27] @ ''\<newline>'',
      ''            });\<newline>'',
      ''        }\<newline>'',
      ''    }\<newline>'',
      ''\<newline>'',
      ''    // Listen for scroll events to if we should stop auto-scrolling.\<newline>'',
      [CHR 0x09] @ ''// This will set autoScroll to false if the user scrolls up.\<newline>'',
      ''    window.addEventListener('' @ [CHR 0x27] @ ''scroll'' @ [CHR 0x27] @ '', function() {\<newline>'',
      ''        let st = window.pageYOffset || document.documentElement.scrollTop;\<newline>'',
      ''        // Check if the user is scrolling up\<newline>'',
      ''        if (lastScrollTop - st >= 2) {\<newline>'',
      ''            autoScroll = false;\<newline>'',
      ''        }\<newline>'',
      ''        lastScrollTop = st <= 0 ? 0 : st; // For Mobile or negative scrolling\<newline>'',
      ''    });\<newline>'',
      ''\<newline>'',
      ''    // Periodically check if we should restart auto-scrolling.\<newline>'',
      [CHR 0x09] @ ''// This will set autoScroll to true if the user is at the bottom of the page.\<newline>'',
      ''    function checkScrollPosition() {\<newline>'',
      ''        if (!autoScroll && (document.body.scrollHeight - window.innerHeight - window.scrollY <= 100)) {\<newline>'',
      ''            autoScroll = true;\<newline>'',
      ''        }\<newline>'',
      ''    }\<newline>'',
      ''\<newline>'',
      ''    // Start auto-scrolling\<newline>'',
      ''    setInterval(scrollToBottom, 200);\<newline>'',
      ''\<newline>'',
      ''    // Start checking scroll position every second\<newline>'',
      ''    setInterval(checkScrollPosition, 1000);\<newline>'',
      ''</script>\<newline>'']"


definition getHtmlPagePrefix :: string where
  "getHtmlPagePrefix =
     ''<!DOCTYPE html>\<newline>'' @ ''<html>\<newline>'' @ ''<head>\<newline>'' @
     ''<title>Term</title>\<newline>'' @ ''</head>\<newline>'' @ ''<body>\<newline>'' @
     ''<style>\<newline>'' @ BodyStyle @ IframeStyle @ BlockStyle @ TextStyle @
     ''</style>\<newline>'' @ ScrollScript"

definition getHtmlPageSuffix :: string where
  "getHtmlPageSuffix = ''</body>\<newline>'' @ ''</html>\<newline>''"

fun tokenText :: "token \<Rightarrow> string" where
  "tokenText PagePrefix = getHtmlPagePrefix"
| "tokenText PreOpen = ''<pre class='' @ [CHR 0x22] @ ''goterm'' @ [CHR 0x22] @ ''>\<newline>''"
| "tokenText PreClose = ''</pre>\<newline>''"
| "tokenText (HtmlLine line) = line @ [NL]"
| "tokenText (TextLine line) = line @ [NL]"
| "tokenText PageSuffix = getHtmlPageSuffix"

section \<open>The blocking buffer\<close>

text \<open>
  \<open>Buffer\<close> wraps a channel of strings. The channel is the queue \<open>ch\<close> of the chunks
  sent and not yet received, its capacity \<open>ch_cap\<close> and the flag \<open>ch_closed\<close>. An
  operation that would wait for another goroutine is the outcome \<open>Block\<close>; a run-time
  panic of the channel operation is the outcome \<open>Panic\<close>.
\<close>

datatype 'a outcome = Return 'a | Block | Panic string

record Buffer =
  ch :: "string list"
  ch_cap :: nat
  ch_closed :: bool
  str :: string
  pos :: nat

definition bufferSize :: nat where
  "bufferSize = 10 * 1024"

definition NewBufferSize :: "nat \<Rightarrow> Buffer" where
  "NewBufferSize n = \<lparr>ch = [], ch_cap = n, ch_closed = False, str = [], pos = 0\<rparr>"

definition NewBuffer :: Buffer where
  "NewBuffer = NewBufferSize bufferSize"

text \<open>\<open>copy(p, b.str[b.pos:])\<close> for a slice \<open>p\<close> of \<open>n\<close> bytes, and \<open>b.pos += n\<close>.\<close>

definition copyOut :: "nat \<Rightarrow> Buffer \<Rightarrow> (string option \<times> Buffer) outcome" where
  "copyOut n b =
     (let k = min n (length (str b) - pos b)
      in Return (Some (take k (drop (pos b) (str b))), b\<lparr>pos := pos b + k\<rparr>))"

text \<open>
  \<open>Read\<close> into a slice of \<open>n\<close> bytes. The result \<open>None\<close> is \<open>(0, io.EOF)\<close>; the result
  \<open>Some bytes\<close> is \<open>(length bytes, nil)\<close> with \<open>bytes\<close> copied into the slice.
\<close>

definition Buffer_Read :: "nat \<Rightarrow> Buffer \<Rightarrow> (string option \<times> Buffer) outcome" where
  "Buffer_Read n b =
     (if length (str b) \<le> pos b then
        (case ch b of
           [] \<Rightarrow> (if ch_closed b then Return (None, b) else Block)
         | s # rest \<Rightarrow> copyOut n (b\<lparr>ch := rest, str := s, pos := 0\<rparr>))
      else copyOut n b)"

definition Buffer_WriteString :: "string \<Rightarrow> Buffer \<Rightarrow> (nat \<times> Buffer) outcome" where
  "Buffer_WriteString s b =
     (if ch_closed b then Panic ''send on closed channel''
      else if ch_cap b \<le> length (ch b) then Block
      else Return (length s, b\<lparr>ch := ch b @ [s]\<rparr>))"

definition Buffer_Write :: "string \<Rightarrow> Buffer \<Rightarrow> (nat \<times> Buffer) outcome" where
  "Buffer_Write p b = Buffer_WriteString p b"

definition Buffer_Close :: "Buffer \<Rightarrow> Buffer outcome" where
  "Buffer_Close b =
     (if ch_closed b then Panic ''close of closed channel''
      else Return (b\<lparr>ch_closed := True\<rparr>))"

text \<open>The bytes written and not yet read.\<close>

definition pending :: "Buffer \<Rightarrow> string" where
  "pending b = drop (pos b) (str b) @ concat (ch b)"

text \<open>
  Reading until end of stream, as \<open>io.ReadAll\<close> in \<open>Buffer.String\<close> and the scanner of
  \<open>internalHTML\<close> do. The \<open>i\<close>-th read offers a slice of \<open>Suc (sz i)\<close> bytes: the
  callers never read into an empty slice.
\<close>

definition weight :: "Buffer \<Rightarrow> nat" where
  "weight b = (length (str b) - pos b) + sum_list (map (\<lambda>s. Suc (length s)) (ch b))"

lemma Buffer_Read_weight:
  "Buffer_Read (Suc n) b = Return (Some bs, b') \<Longrightarrow> weight b' < weight b"
  by (auto simp: Buffer_Read_def copyOut_def weight_def Let_def min_def
           split: if_splits list.splits)

function readAll :: "(nat \<Rightarrow> nat) \<Rightarrow> nat \<Rightarrow> Buffer \<Rightarrow> (string \<times> Buffer) outcome" where
  "readAll sz i b =
     (case Buffer_Read (Suc (sz i)) b of
        Block \<Rightarrow> Block
      | Panic m \<Rightarrow> Panic m
      | Return (None, b') \<Rightarrow> Return ([], b')
      | Return (Some bs, b') \<Rightarrow>
          (case readAll sz (Suc i) b' of
             Return (rest, b'') \<Rightarrow> Return (bs @ rest, b'')
           | Block \<Rightarrow> Block
           | Panic m \<Rightarrow> Panic m))"
  by pat_completeness auto
termination
  by (relation "measure (\<lambda>(sz, i, b). weight b)") (auto dest: Buffer_Read_weight)

section \<open>The session\<close>

text \<open>
  The five formats that \<open>options.go\<close> declares. (\<open>OutputFormat\<close> is an integer type in Go;
  with any other value the consumer goroutine of \<open>Open\<close> panics.)
\<close>

datatype OutputFormat = HTMLWindow | HTMLPage | HTMLContent | Raw | Custom

record Term =
  buf :: Buffer
  cache :: string
  opened :: bool
  closed :: bool
  format :: OutputFormat
  port :: int
  attachOutput :: bool
  cacheOutput :: bool

text \<open>\<open>NewTerm\<close> sets the buffer (and the logger); every other field has Go's zero value.\<close>

definition NewTerm :: Term where
  "NewTerm = \<lparr>buf = NewBuffer, cache = [], opened = False, closed = False,
              format = HTMLWindow, port = 0, attachOutput = False, cacheOutput = False\<rparr>"

text \<open>The options of \<open>options.go\<close>: each is a function that updates the session.\<close>

datatype TermOption = Detach | Format OutputFormat | BindPort int

fun applyOption :: "TermOption \<Rightarrow> Term \<Rightarrow> Term" where
  "applyOption Detach t = t\<lparr>attachOutput := False\<rparr>"
| "applyOption (Format f) t = t\<lparr>format := f\<rparr>"
| "applyOption (BindPort p) t = t\<lparr>format := Custom, port := p, cacheOutput := True\<rparr>"

text \<open>
  \<open>Term.Open\<close>: the check of \<open>opened\<close>, the flag and the options. The pipes, the
  redirection of \<open>os.Stdout\<close> and \<open>os.Stderr\<close> and the three goroutines it starts are
  not part of the record; the forwarding goroutines are \<open>forwardStdout\<close> and
  \<open>forwardStderr\<close> below.
\<close>

definition Term_Open :: "TermOption list \<Rightarrow> Term \<Rightarrow> Term outcome" where
  "Term_Open options t =
     (if opened t then Panic ''terminal is already opened''
      else Return (foldl (\<lambda>t' option. applyOption option t') (t\<lparr>opened := True\<rparr>) options))"

text \<open>
  \<open>Term.Close\<close>: restoring the streams and closing the two pipe writers never panics
  (closing a file twice returns an error that is dropped); \<open>t.buf.Close()\<close> closes the
  channel; then \<open>closed\<close> is set. The waits for the goroutines are not modelled.
\<close>

definition Term_Close :: "Term \<Rightarrow> Term outcome" where
  "Term_Close t =
     (case Buffer_Close (buf t) of
        Return b \<Rightarrow> Return (t\<lparr>buf := b, closed := True\<rparr>)
      | Block \<Rightarrow> Block
      | Panic m \<Rightarrow> Panic m)"

text \<open>
  \<open>internalHTML\<close> for a consumer that takes every token. \<open>live\<close> is the sequence of
  bytes that the scanner receives from \<open>t.buf\<close> up to the end of the stream (the
  forwarding goroutines never write an empty chunk, so every read of the scanner makes
  progress). The cached lines are converted first, by the same \<open>convertLine\<close> and its
  two variables; every line read from the buffer is appended to the cache when caching
  is on.
\<close>

definition internalTokens :: "bool \<Rightarrow> Term \<Rightarrow> string \<Rightarrow> token list \<times> Term" where
  "internalTokens fullPage t live =
     (let cached = (if cacheOutput t then scanLines (cache t) else []);
          lines = scanLines live
      in case convertLines (cached @ lines) \<lparr>inHtml = False, isFirstTextLine = True\<rparr> of
           (out, st) \<Rightarrow>
             ((if fullPage then [PagePrefix] else []) @ out @
              (if \<not> inHtml st \<and> \<not> isFirstTextLine st then [PreClose] else []) @
              (if fullPage then [PageSuffix] else []),
              (if cacheOutput t
               then t\<lparr>cache := cache t @ concat (map (\<lambda>line. line @ [NL]) lines)\<rparr>
               else t)))"

definition internalHTML :: "bool \<Rightarrow> Term \<Rightarrow> string \<Rightarrow> string list \<times> Term" where
  "internalHTML fullPage t live =
     (case internalTokens fullPage t live of (out, t') \<Rightarrow> (map tokenText out, t'))"

definition Term_HTML :: "bool \<Rightarrow> Term \<Rightarrow> string \<Rightarrow> (string list \<times> Term) outcome" where
  "Term_HTML fullPage t live =
     (if format t \<noteq> Custom then Panic ''format must be CustomFormat when calling HTML()''
      else Return (internalHTML fullPage t live))"

text \<open>
  The package keeps one session in the variable \<open>term\<close>; the package functions \<open>Open\<close>,
  \<open>Close\<close> and \<open>HTML\<close> act on it, and \<open>Open\<close> replaces a closed session by a new one.
  The process is that variable and what has been written to the original standard
  output and standard error.
\<close>

record process =
  pkg_term :: Term
  sysStdout :: string
  sysStderr :: string

definition pkg_Open :: "TermOption list \<Rightarrow> process \<Rightarrow> process outcome" where
  "pkg_Open options s =
     (case Term_Open options (if closed (pkg_term s) then NewTerm else pkg_term s) of
        Return t \<Rightarrow> Return (s\<lparr>pkg_term := t\<rparr>)
      | Block \<Rightarrow> Block
      | Panic m \<Rightarrow> Panic m)"

definition pkg_Close :: "process \<Rightarrow> process outcome" where
  "pkg_Close s =
     (case Term_Close (pkg_term s) of
        Return t \<Rightarrow> Return (s\<lparr>pkg_term := t\<rparr>)
      | Block \<Rightarrow> Block
      | Panic m \<Rightarrow> Panic m)"

definition pkg_HTML :: "bool \<Rightarrow> process \<Rightarrow> string \<Rightarrow> (string list \<times> process) outcome" where
  "pkg_HTML page s live =
     (case Term_HTML page (pkg_term s) live of
        Return (out, t) \<Rightarrow> Return (out, s\<lparr>pkg_term := t\<rparr>)
      | Block \<Rightarrow> Block
      | Panic m \<Rightarrow> Panic m)"

text \<open>
  A forwarding goroutine of \<open>Open\<close> copies what it reads from its pipe with \<open>io.Copy\<close>:
  each piece \<open>p\<close> goes to one \<open>Write\<close> of the destination, which is
  \<open>io.MultiWriter(t.buf, sysStdout)\<close> when the format is \<open>Raw\<close> and \<open>t.buf\<close> otherwise.
  The multi-writer writes to the buffer first. Writes to the original streams are taken
  to succeed.
\<close>

definition forwardStdout :: "string \<Rightarrow> process \<Rightarrow> process outcome" where
  "forwardStdout p s =
     (case Buffer_Write p (buf (pkg_term s)) of
        Return (n, b) \<Rightarrow>
          Return (s\<lparr>pkg_term := (pkg_term s)\<lparr>buf := b\<rparr>,
                    sysStdout := (if format (pkg_term s) = Raw then sysStdout s @ p
                                  else sysStdout s)\<rparr>)
      | Block \<Rightarrow> Block
      | Panic m \<Rightarrow> Panic m)"

definition forwardStderr :: "string \<Rightarrow> process \<Rightarrow> process outcome" where
  "forwardStderr p s =
     (case Buffer_Write p (buf (pkg_term s)) of
        Return (n, b) \<Rightarrow>
          Return (s\<lparr>pkg_term := (pkg_term s)\<lparr>buf := b\<rparr>,
                    sysStderr := (if format (pkg_term s) = Raw then sysStderr s @ p
                                  else sysStderr s)\<rparr>)
      | Block \<Rightarrow> Block
      | Panic m \<Rightarrow> Panic m)"

text \<open>
  The calls of a program on the package, for the reachable states: a call that panics
  leaves the session as it was (the tests recover from the panic and go on).
\<close>

datatype call = CallOpen "TermOption list" | CallClose | CallHTML bool string
  | CallStdout string | CallStderr string

fun perform :: "call \<Rightarrow> process \<Rightarrow> process outcome" where
  "perform (CallOpen options) s = pkg_Open options s"
| "perform CallClose s = pkg_Close s"
| "perform (CallHTML page live) s =
     (case pkg_HTML page s live of
        Return (out, s') \<Rightarrow> Return s'
      | Block \<Rightarrow> Block
      | Panic m \<Rightarrow> Panic m)"
| "perform (CallStdout p) s = forwardStdout p s"
| "perform (CallStderr p) s = forwardStderr p s"

fun after :: "call list \<Rightarrow> process \<Rightarrow> process" where
  "after [] s = s"
| "after (c # cs) s = after cs (case perform c s of Return s' \<Rightarrow> s' | Block \<Rightarrow> s | Panic m \<Rightarrow> s)"

definition start :: process where
  "start = \<lparr>pkg_term = NewTerm, sysStdout = [], sysStderr = []\<rparr>"

section \<open>The sentinel encoder\<close>

text \<open>
  \<open>escapeHtml\<close> puts the tag line before and after the content. \<open>PrintHtml\<close> prints the
  result with \<open>fmt.Println\<close>: the value here is the bytes it writes to \<open>os.Stdout\<close>.
\<close>

definition escapeHtml :: "string \<Rightarrow> string" where
  "escapeHtml html = HtmlTag @ [NL] @ html @ [NL] @ HtmlTag"

definition Println :: "string \<Rightarrow> string" where
  "Println s = s @ [NL]"

definition PrintHtml :: "string \<Rightarrow> string" where
  "PrintHtml html = Println (escapeHtml html)"

text \<open>\<open>preText\<close> of the tests: the text inside one preformatted block.\<close>

definition preText :: "string \<Rightarrow> string" where
  "preText s = ''<pre class='' @ [CHR 0x22] @ ''goterm'' @ [CHR 0x22] @ ''>\<newline>'' @ s @
               ''\<newline></pre>\<newline>''"

text \<open>The lines of a text: the pieces between its newlines (at least one piece).\<close>

fun linesOf :: "string \<Rightarrow> string list" where
  "linesOf [] = [[]]"
| "linesOf (c # cs) =
     (if c = NL then [] # linesOf cs
      else (case linesOf cs of [] \<Rightarrow> [[c]] | l # ls \<Rightarrow> (c # l) # ls))"

section \<open>Blocks\<close>

text \<open>
  \<open>strings.TrimSpace\<close> removes the leading and trailing white space of Unicode. On the
  bytes of the string these are the UTF-8 encodings of the code points of
  \<open>unicode.White_Space\<close>: U+0009 to U+000D, U+0020, U+0085, U+00A0, U+1680, U+2000 to
  U+200A, U+2028, U+2029, U+202F, U+205F and U+3000. A byte sequence that is not valid
  UTF-8 decodes to U+FFFD, which is not white space.
\<close>

definition spaceRunes :: "string list" where
  "spaceRunes =
     [[CHR 0x09], [CHR 0x0A], [CHR 0x0B], [CHR 0x0C], [CHR 0x0D], [CHR 0x20],
      [CHR 0xC2, CHR 0x85], [CHR 0xC2, CHR 0xA0], [CHR 0xE1, CHR 0x9A, CHR 0x80],
      [CHR 0xE2, CHR 0x80, CHR 0x80], [CHR 0xE2, CHR 0x80, CHR 0x81],
      [CHR 0xE2, CHR 0x80, CHR 0x82], [CHR 0xE2, CHR 0x80, CHR 0x83],
      [CHR 0xE2, CHR 0x80, CHR 0x84], [CHR 0xE2, CHR 0x80, CHR 0x85],
      [CHR 0xE2, CHR 0x80, CHR 0x86], [CHR 0xE2, CHR 0x80, CHR 0x87],
      [CHR 0xE2, CHR 0x80, CHR 0x88], [CHR 0xE2, CHR 0x80, CHR 0x89],
      [CHR 0xE2, CHR 0x80, CHR 0x8A], [CHR 0xE2, CHR 0x80, CHR 0xA8],
      [CHR 0xE2, CHR 0x80, CHR 0xA9], [CHR 0xE2, CHR 0x80, CHR 0xAF],
      [CHR 0xE2, CHR 0x81, CHR 0x9F], [CHR 0xE3, CHR 0x80, CHR 0x80]]"

lemma spaceRunes_nonempty: "find P spaceRunes = Some w \<Longrightarrow> 0 < length w"
proof -
  assume "find P spaceRunes = Some w"
  then have "w \<in> set spaceRunes"
    by (auto simp: find_Some_iff)
  then show "0 < length w"
    by (auto simp: spaceRunes_def)
qed

function TrimLeftSpace :: "string \<Rightarrow> string" where
  "TrimLeftSpace s =
     (case find (HasPrefix s) spaceRunes of
        None \<Rightarrow> s
      | Some w \<Rightarrow> TrimLeftSpace (drop (length w) s))"
  by pat_completeness auto
termination
proof (relation "measure length")
  show "wf (measure length)" by simp
next
  fix s w
  assume found: "find (HasPrefix s) spaceRunes = Some w"
  then have "HasPrefix s w"
    by (auto simp: find_Some_iff)
  with spaceRunes_nonempty [OF found] show "(drop (length w) s, s) \<in> measure length"
    by (cases w) (auto simp: HasPrefix_def)
qed

function TrimRightSpace :: "string \<Rightarrow> string" where
  "TrimRightSpace s =
     (case find (HasSuffix s) spaceRunes of
        None \<Rightarrow> s
      | Some w \<Rightarrow> TrimRightSpace (take (length s - length w) s))"
  by pat_completeness auto
termination
proof (relation "measure length")
  show "wf (measure length)" by simp
next
  fix s w
  assume found: "find (HasSuffix s) spaceRunes = Some w"
  then have "HasSuffix s w"
    by (auto simp: find_Some_iff)
  with spaceRunes_nonempty [OF found] show "(take (length s - length w) s, s) \<in> measure length"
    by (cases w) (auto simp: HasSuffix_def)
qed

definition TrimSpace :: "string \<Rightarrow> string" where
  "TrimSpace s = TrimRightSpace (TrimLeftSpace s)"

text \<open>
  \<open>strings.ReplaceAll\<close>: the occurrences of the pattern are found from the left and do not
  overlap. The source passes constant patterns that are not empty; the empty pattern,
  which Go matches between all the characters, is not modelled (the last equation leaves
  the text as it is).
\<close>

function ReplaceAll :: "string \<Rightarrow> string \<Rightarrow> string \<Rightarrow> string" where
  "ReplaceAll [] (x # xs) new = []"
| "ReplaceAll (c # cs) (x # xs) new =
     (if HasPrefix (c # cs) (x # xs)
      then new @ ReplaceAll (drop (length (x # xs)) (c # cs)) (x # xs) new
      else c # ReplaceAll cs (x # xs) new)"
| "ReplaceAll s [] new = s"
  by pat_completeness auto
termination
  by (relation "measure (\<lambda>(s, old, new). length s)") auto

text \<open>\<open>html.EscapeString\<close> replaces five characters.\<close>

fun escapeByte :: "char \<Rightarrow> string" where
  "escapeByte c =
     (if c = CHR ''&'' then ''&amp;''
      else if c = CHR 0x27 then ''&#39;''
      else if c = CHR ''<'' then ''&lt;''
      else if c = CHR ''>'' then ''&gt;''
      else if c = CHR 0x22 then ''&#34;''
      else [c])"

definition EscapeString :: "string \<Rightarrow> string" where
  "EscapeString s = concat (map escapeByte s)"

definition escapeForSrcdoc :: "string \<Rightarrow> string" where
  "escapeForSrcdoc content = ReplaceAll (EscapeString content) [CHR 0x22] ''&#34;''"

definition EscapeIframe :: "string \<Rightarrow> string \<Rightarrow> string" where
  "EscapeIframe pageHtml klass =
     (let (attr, val) =
            (if \<not> HasPrefix pageHtml ''http'' then (''srcdoc'', escapeForSrcdoc pageHtml)
             else (''src'', pageHtml))
      in ''<iframe class='' @ [CHR 0x22] @ klass @ [CHR 0x22] @ '' '' @ attr @ ''='' @
         [CHR 0x22] @ val @ [CHR 0x22] @ ''></iframe>'')"

text \<open>\<open>%d\<close> of \<open>fmt.Sprintf\<close>.\<close>

function decimal :: "nat \<Rightarrow> string" where
  "decimal n = (if n < 10 then [char_of (48 + n)] else decimal (n div 10) @ [char_of (48 + n mod 10)])"
  by pat_completeness auto
termination
  by (relation "measure id") auto

definition Sprintf_d :: "int \<Rightarrow> string" where
  "Sprintf_d i = (if i < 0 then ''-'' @ decimal (nat (- i)) else decimal (nat i))"

text \<open>
  The configuration of a block. \<open>colorToCSS\<close> and the \<open>%.2f\<close> of the opacity format
  floating-point numbers: the configuration holds their text (the \<open>rgba(...)\<close> of a
  colour, the two decimals of the opacity), \<open>None\<close> for a nil colour or opacity.
\<close>

record blockConfig =
  width :: int
  height :: int
  background :: "string option"
  color :: "string option"
  opacity :: "string option"

datatype BlockOption = SizeOption int int | BackgroundOption string | ColorOption string
  | OpacityOption string

fun applyBlockOption :: "BlockOption \<Rightarrow> blockConfig \<Rightarrow> blockConfig" where
  "applyBlockOption (SizeOption w h) c = c\<lparr>width := w, height := h\<rparr>"
| "applyBlockOption (BackgroundOption x) c = c\<lparr>background := Some x\<rparr>"
| "applyBlockOption (ColorOption x) c = c\<lparr>color := Some x\<rparr>"
| "applyBlockOption (OpacityOption x) c = c\<lparr>opacity := Some x\<rparr>"

definition zeroConfig :: blockConfig where
  "zeroConfig = \<lparr>width = 0, height = 0, background = None, color = None, opacity = None\<rparr>"

text \<open>The two style attributes that \<open>PrintBlockSize\<close> builds before it looks at the content.\<close>

definition rowStyle :: "blockConfig \<Rightarrow> string" where
  "rowStyle conf =
     (case background conf of None \<Rightarrow> [] | Some c \<Rightarrow> ''background-color: '' @ c @ '';'')"

definition boxStyle :: "int \<Rightarrow> int \<Rightarrow> blockConfig \<Rightarrow> string" where
  "boxStyle w h conf =
     (if w > 0 then ''width: '' @ Sprintf_d w @ ''px;'' else []) @
     (if h > 0 then ''height: '' @ Sprintf_d h @ ''px;'' else []) @
     (case color conf of None \<Rightarrow> [] | Some c \<Rightarrow> ''color: '' @ c @ '';'') @
     (case opacity conf of None \<Rightarrow> [] | Some x \<Rightarrow> ''opacity: '' @ x @ '';'')"

text \<open>
  \<open>PrintBlockSize\<close>: the value is the bytes that its last statement, \<open>PrintHtml(html)\<close>,
  writes to \<open>os.Stdout\<close>. \<open>blockConf\<close> is the configuration after the options;
  \<open>promote\<close> is the content after the statement that turns a page into an inline frame;
  \<open>wrapBlock\<close> is the \<open>Sprintf\<close> of the two \<open>div\<close> elements followed by the
  \<open>ReplaceAll\<close> that removes empty style attributes; \<open>blockHtml\<close> is the argument of
  \<open>PrintHtml\<close>.
\<close>

definition blockConf :: "BlockOption list \<Rightarrow> blockConfig" where
  "blockConf ops = foldl (\<lambda>c opt. applyBlockOption opt c) zeroConfig ops"

definition promote :: "string \<Rightarrow> string" where
  "promote html =
     (if HasSuffix (TrimSpace html) ''</html>'' then EscapeIframe html [] else html)"

definition wrapBlock :: "string \<Rightarrow> string \<Rightarrow> string \<Rightarrow> string" where
  "wrapBlock row css html =
     ReplaceAll
       (''<div class='' @ [CHR 0x27] @ ''goterm-row'' @ [CHR 0x27] @ '' style='' @ [CHR 0x27] @
        row @ [CHR 0x27] @ ''><div style='' @ [CHR 0x27] @ css @ [CHR 0x27] @ '' class='' @
        [CHR 0x27] @ ''goterm-box'' @ [CHR 0x27] @ ''>'' @ html @ ''</div></div>'')
       ('' style='' @ [CHR 0x27, CHR 0x27]) []"

definition blockHtml :: "string \<Rightarrow> int \<Rightarrow> int \<Rightarrow> BlockOption list \<Rightarrow> string" where
  "blockHtml html w0 h0 ops =
     (let conf = blockConf ops;
          w = (if w0 = 0 then width conf else w0);
          h = (if h0 = 0 then height conf else h0);
          row = rowStyle conf;
          css = boxStyle w h conf;
          html' = promote html;
          css' = (if HasPrefix html' ''<iframe'' then ''width: 100%;'' @ css @ ''overflow-x: auto;''
                  else css)
      in wrapBlock row css' html')"

definition PrintBlockSize :: "string \<Rightarrow> int \<Rightarrow> int \<Rightarrow> BlockOption list \<Rightarrow> string" where
  "PrintBlockSize html w0 h0 ops = PrintHtml (blockHtml html w0 h0 ops)"

definition PrintBlock :: "string \<Rightarrow> BlockOption list \<Rightarrow> string" where
  "PrintBlock html ops = PrintBlockSize html 0 0 ops"

text \<open>
  The lines that one run of \<open>internalHTML\<close> converts, and the positions of the plain-text
  lines among them: a line that is not a tag line, after an even number of tag lines.
\<close>

definition linesRead :: "Term \<Rightarrow> string \<Rightarrow> string list" where
  "linesRead t live = (if cacheOutput t then scanLines (cache t) else []) @ scanLines live"

definition plainTextLineAt :: "string list \<Rightarrow> nat \<Rightarrow> bool" where
  "plainTextLineAt ls i =
     (i < length ls \<and> \<not> HasSuffix (ls ! i) HtmlTag \<and>
      even (length (filter (\<lambda>l. HasSuffix l HtmlTag) (take i ls))))"

text \<open>A producer that writes chunks one after the other.\<close>

fun writeAll :: "string list \<Rightarrow> Buffer \<Rightarrow> Buffer outcome" where
  "writeAll [] b = Return b"
| "writeAll (s # ss) b =
     (case Buffer_WriteString s b of
        Return (n, b') \<Rightarrow> writeAll ss b'
      | Block \<Rightarrow> Block
      | Panic m \<Rightarrow> Panic m)"

text \<open>
  The relation between the two flags that every reachable state satisfies: \<open>Close\<close> sets
  \<open>closed\<close> only after it has closed the channel of the buffer.
\<close>

definition consistent :: "process \<Rightarrow> bool" where
  "consistent s = (closed (pkg_term s) \<longrightarrow> ch_closed (buf (pkg_term s)))"

section \<open>Facts about the scanner and the converter\<close>

lemma scanLines_line:
  assumes "NL \<notin> set l" and "length l < MaxBuffersize"
  shows "scanLines (l @ NL # rest) = dropCR l # scanLines rest"
proof -
  have tw: "takeWhile (\<lambda>x. x \<noteq> NL) (l @ NL # rest) = l"
    using assms(1) by (induction l) auto
  have dw: "dropWhile (\<lambda>x. x \<noteq> NL) (l @ NL # rest) = NL # rest"
    using assms(1) by (induction l) auto
  obtain c cs where split: "l @ NL # rest = c # cs"
    by (cases "l @ NL # rest") auto
  have "scanLines (c # cs) = dropCR l # scanLines rest"
    using tw dw assms(2) unfolding split [symmetric] scanLines.simps(2) [of c cs, unfolded split [symmetric]]
    by (simp add: Let_def)
  then show ?thesis by (simp add: split)
qed

lemma scanLines_lines:
  assumes "\<forall>l \<in> set ls. NL \<notin> set l \<and> length l < MaxBuffersize"
  shows "scanLines (concat (map (\<lambda>l. l @ [NL]) ls)) = map dropCR ls"
  using assms by (induction ls) (simp_all add: scanLines_line)

lemma scanLines_too_long:
  assumes "NL \<notin> set l" and "MaxBuffersize \<le> length l"
  shows "scanLines (l @ rest) = []"
proof -
  obtain c cs where l: "l = c # cs"
    using assms(2) by (cases l) (auto simp: MaxBuffersize_def)
  have "length l \<le> length (takeWhile (\<lambda>x. x \<noteq> NL) (l @ rest))"
    using assms(1) by (induction l) auto
  then have "MaxBuffersize \<le> length (takeWhile (\<lambda>x. x \<noteq> NL) ((c # cs) @ rest))"
    using assms(2) l by simp
  then show ?thesis
    unfolding l by (simp del: takeWhile.simps add: Let_def)
qed

lemma linesOf_nonempty: "linesOf s \<noteq> []"
  by (induction s) (auto split: list.splits)

lemma linesOf_concat: "concat (map (\<lambda>l. l @ [NL]) (linesOf s)) = s @ [NL]"
  by (induction s) (auto split: list.splits)

lemma linesOf_no_newline: "l \<in> set (linesOf s) \<Longrightarrow> NL \<notin> set l"
  by (induction s arbitrary: l) (auto split: list.splits if_splits)

lemma dropCR_id: "\<not> HasSuffix l [CR] \<Longrightarrow> dropCR l = l"
  by (cases l rule: rev_cases) (auto simp: dropCR_def HasSuffix_def)

lemma convertLines_append:
  "convertLines (xs @ ys) st =
     (case convertLines xs st of (o1, s1) \<Rightarrow>
        (case convertLines ys s1 of (o2, s2) \<Rightarrow> (o1 @ o2, s2)))"
  by (induction xs arbitrary: st) (auto split: prod.splits)

lemma convertLines_text:
  assumes "\<forall>l \<in> set ls. \<not> HasSuffix l HtmlTag"
  shows "convertLines ls \<lparr>inHtml = False, isFirstTextLine = f\<rparr> =
           ((if f \<and> ls \<noteq> [] then [PreOpen] else []) @ map TextLine ls,
            \<lparr>inHtml = False, isFirstTextLine = (f \<and> ls = [])\<rparr>)"
  using assms by (induction ls arbitrary: f) (auto simp: convertLine_def)

lemma convertLines_html:
  assumes "\<forall>l \<in> set ls. \<not> HasSuffix l HtmlTag"
  shows "convertLines ls \<lparr>inHtml = True, isFirstTextLine = f\<rparr> =
           (map HtmlLine ls, \<lparr>inHtml = True, isFirstTextLine = f\<rparr>)"
  using assms by (induction ls) (auto simp: convertLine_def)

lemma HasSuffix_self: "HasSuffix s s"
  by (simp add: HasSuffix_def)

lemma HasSuffix_append: "HasSuffix (p @ s) s"
  by (simp add: HasSuffix_def)

lemma HasSuffix_short: "length s < length x \<Longrightarrow> \<not> HasSuffix s x"
  by (simp add: HasSuffix_def)

lemma HtmlTag_length: "length HtmlTag = 55"
  by (simp add: HtmlTag_def)

lemma HtmlTag_facts: "NL \<notin> set HtmlTag" "length HtmlTag < MaxBuffersize" "dropCR HtmlTag = HtmlTag"
  by (simp_all add: HtmlTag_def MaxBuffersize_def dropCR_def)

lemma convertLine_tag:
  "convertLine HtmlTag st =
     ((if \<not> inHtml st \<and> \<not> isFirstTextLine st then [PreClose] else []),
      st\<lparr>inHtml := \<not> inHtml st, isFirstTextLine := True\<rparr>)"
  by (simp add: convertLine_def HasSuffix_self)

lemma internalTokens_no_cache:
  "\<not> cacheOutput t \<Longrightarrow>
   internalTokens fullPage t live =
     (case convertLines (scanLines live) \<lparr>inHtml = False, isFirstTextLine = True\<rparr> of
        (out, st) \<Rightarrow>
          ((if fullPage then [PagePrefix] else []) @ out @
           (if \<not> inHtml st \<and> \<not> isFirstTextLine st then [PreClose] else []) @
           (if fullPage then [PageSuffix] else []), t))"
  by (simp add: internalTokens_def)

lemma scanLines_Println:
  assumes "\<forall>l \<in> set (linesOf s). \<not> HasSuffix l [CR] \<and> length l < MaxBuffersize"
  shows "scanLines (Println s) = linesOf s"
proof -
  have "\<forall>l \<in> set (linesOf s). NL \<notin> set l \<and> length l < MaxBuffersize"
    using assms linesOf_no_newline by blast
  then have "scanLines (concat (map (\<lambda>l. l @ [NL]) (linesOf s))) = map dropCR (linesOf s)"
    by (rule scanLines_lines)
  moreover have "map dropCR (linesOf s) = linesOf s"
    using assms by (simp add: map_idI dropCR_id)
  ultimately show ?thesis
    by (simp add: linesOf_concat Println_def)
qed

lemma scanLines_PrintHtml:
  assumes "\<forall>l \<in> set (linesOf html). \<not> HasSuffix l [CR] \<and> length l < MaxBuffersize"
  shows "scanLines (PrintHtml html) = HtmlTag # linesOf html @ [HtmlTag]"
proof -
  let ?ls = "HtmlTag # linesOf html @ [HtmlTag]"
  have "\<forall>l \<in> set ?ls. NL \<notin> set l \<and> length l < MaxBuffersize"
    using assms linesOf_no_newline HtmlTag_facts by auto
  then have "scanLines (concat (map (\<lambda>l. l @ [NL]) ?ls)) = map dropCR ?ls"
    by (rule scanLines_lines)
  moreover have "map dropCR (linesOf html) = linesOf html"
    using assms by (simp add: map_idI dropCR_id)
  moreover have "concat (map (\<lambda>l. l @ [NL]) ?ls) = PrintHtml html"
    by (simp add: linesOf_concat PrintHtml_def Println_def escapeHtml_def)
  ultimately show ?thesis
    using HtmlTag_facts(3) by simp
qed

section \<open>Properties of the converter\<close>

text \<open>
  C1. The session collects, in fragment mode and without a cache, the stream that the
  program wrote as the plain line \<open>a\<close>, the encoded fragment \<open><b>x</b>\<close> and the plain
  line \<open>b\<close>. The tokens are exactly: the opener of a preformatted block, \<open>a\<close> and a
  newline, the closer, the fragment and a newline, the opener, \<open>b\<close> and a newline, the
  closer.
\<close>

theorem scenario_tokens:
  assumes "\<not> cacheOutput t"
  shows "internalHTML False t (Println ''a'' @ PrintHtml ''<b>x</b>'' @ Println ''b'') =
           ([''<pre class='' @ [CHR 0x22] @ ''goterm'' @ [CHR 0x22] @ ''>\<newline>'',
             ''a\<newline>'', ''</pre>\<newline>'', ''<b>x</b>\<newline>'',
             ''<pre class='' @ [CHR 0x22] @ ''goterm'' @ [CHR 0x22] @ ''>\<newline>'',
             ''b\<newline>'', ''</pre>\<newline>''], t)"
proof -
  let ?ls = "[''a'', HtmlTag, ''<b>x</b>'', HtmlTag, ''b'']"
  have stream: "Println ''a'' @ PrintHtml ''<b>x</b>'' @ Println ''b'' =
      concat (map (\<lambda>l. l @ [NL]) ?ls)"
    by (simp add: Println_def PrintHtml_def escapeHtml_def)
  have "\<forall>l \<in> set ?ls. NL \<notin> set l \<and> length l < MaxBuffersize"
    using HtmlTag_facts by (simp add: MaxBuffersize_def)
  then have "scanLines (concat (map (\<lambda>l. l @ [NL]) ?ls)) = map dropCR ?ls"
    by (rule scanLines_lines)
  then have lines: "scanLines (Println ''a'' @ PrintHtml ''<b>x</b>'' @ Println ''b'') = ?ls"
    using HtmlTag_facts(3) by (simp add: stream dropCR_def)
  have short: "\<not> HasSuffix ''a'' HtmlTag" "\<not> HasSuffix ''<b>x</b>'' HtmlTag"
    "\<not> HasSuffix ''b'' HtmlTag"
    by (simp_all add: HasSuffix_short HtmlTag_length)
  have conv: "convertLines ?ls \<lparr>inHtml = False, isFirstTextLine = True\<rparr> =
      ([PreOpen, TextLine ''a'', PreClose, HtmlLine ''<b>x</b>'', PreOpen, TextLine ''b''],
       \<lparr>inHtml = False, isFirstTextLine = False\<rparr>)"
    by (simp add: convertLine_tag) (simp add: convertLine_def short)
  show ?thesis
    unfolding internalHTML_def internalTokens_no_cache [OF assms] lines conv
    by simp
qed

theorem scenario_tokens_witness:
  "internalHTML False (NewTerm\<lparr>opened := True, format := Custom\<rparr>)
     (Println ''a'' @ PrintHtml ''<b>x</b>'' @ Println ''b'') =
   ([''<pre class='' @ [CHR 0x22] @ ''goterm'' @ [CHR 0x22] @ ''>\<newline>'',
     ''a\<newline>'', ''</pre>\<newline>'', ''<b>x</b>\<newline>'',
     ''<pre class='' @ [CHR 0x22] @ ''goterm'' @ [CHR 0x22] @ ''>\<newline>'',
     ''b\<newline>'', ''</pre>\<newline>''], NewTerm\<lparr>opened := True, format := Custom\<rparr>)"
  using scenario_tokens [of "NewTerm\<lparr>opened := True, format := Custom\<rparr>"]
  by (simp add: NewTerm_def)

text \<open>
  C2, as amended. \<open>convertLine\<close> tests \<open>strings.HasSuffix(line, HtmlTag)\<close>: a line that
  ends with the sentinel (the sentinel itself is one) toggles the flag and is not rendered;
  the only token it can yield is the closer of an open preformatted block. Every other
  line leaves the flag alone and is rendered: as an HTML line when the flag is set, as a
  text line after the opener of its block otherwise.
\<close>

theorem convertLine_toggle_or_render:
  "HasSuffix HtmlTag HtmlTag \<and>
   (HasSuffix line HtmlTag \<longrightarrow>
      inHtml (snd (convertLine line st)) = (\<not> inHtml st) \<and>
      HtmlLine line \<notin> set (fst (convertLine line st)) \<and>
      TextLine line \<notin> set (fst (convertLine line st)) \<and>
      fst (convertLine line st) =
        (if \<not> inHtml st \<and> \<not> isFirstTextLine st then [PreClose] else [])) \<and>
   (\<not> HasSuffix line HtmlTag \<longrightarrow>
      inHtml (snd (convertLine line st)) = inHtml st \<and>
      (inHtml st \<longrightarrow> fst (convertLine line st) = [HtmlLine line]) \<and>
      (\<not> inHtml st \<longrightarrow>
         fst (convertLine line st) =
           (if isFirstTextLine st then [PreOpen] else []) @ [TextLine line] \<and>
         \<not> isFirstTextLine (snd (convertLine line st))))"
  by (simp add: convertLine_def HasSuffix_self)

theorem convertLine_toggle_or_render_witness:
  "convertLine HtmlTag \<lparr>inHtml = False, isFirstTextLine = False\<rparr> =
     ([PreClose], \<lparr>inHtml = True, isFirstTextLine = True\<rparr>) \<and>
   convertLine ''<b>x</b>'' \<lparr>inHtml = True, isFirstTextLine = True\<rparr> =
     ([HtmlLine ''<b>x</b>''], \<lparr>inHtml = True, isFirstTextLine = True\<rparr>) \<and>
   convertLine ''a'' \<lparr>inHtml = False, isFirstTextLine = True\<rparr> =
     ([PreOpen, TextLine ''a''], \<lparr>inHtml = False, isFirstTextLine = False\<rparr>)"
proof -
  have a: "\<not> HasSuffix ''<b>x</b>'' HtmlTag" "\<not> HasSuffix ''a'' HtmlTag"
    by (simp_all add: HasSuffix_short HtmlTag_length)
  show ?thesis
    using convertLine_toggle_or_render [of HtmlTag "\<lparr>inHtml = False, isFirstTextLine = False\<rparr>"]
      convertLine_toggle_or_render [of "''<b>x</b>''" "\<lparr>inHtml = True, isFirstTextLine = True\<rparr>"]
      convertLine_toggle_or_render [of "''a''" "\<lparr>inHtml = False, isFirstTextLine = True\<rparr>"]
      a
    by (simp add: prod_eq_iff convertLine_def)
qed

theorem sentinel_suffix_line_counterexample:
  "''x'' @ HtmlTag \<noteq> HtmlTag \<and>
   convertLine (''x'' @ HtmlTag) \<lparr>inHtml = False, isFirstTextLine = True\<rparr> =
     ([], \<lparr>inHtml = True, isFirstTextLine = True\<rparr>)"
  using HasSuffix_append [of "''x''" HtmlTag] by (simp add: convertLine_def)

text \<open>
  C4, as amended. Printing a text \<open>s\<close> with \<open>fmt.Println\<close> and collecting the fragment
  gives the opener, every line of \<open>s\<close> with a newline, and the closer, that is
  \<open>preText s\<close>, when no line of \<open>s\<close> ends with the sentinel or with a carriage return and
  every line is shorter than \<open>MaxBuffersize\<close>.
\<close>

theorem plain_text_rendering:
  assumes "\<not> cacheOutput t"
    and "\<forall>l \<in> set (linesOf s).
           \<not> HasSuffix l HtmlTag \<and> \<not> HasSuffix l [CR] \<and> length l < MaxBuffersize"
  shows "fst (internalHTML False t (Println s)) =
           tokenText PreOpen # map (\<lambda>l. l @ [NL]) (linesOf s) @ [tokenText PreClose] \<and>
         concat (fst (internalHTML False t (Println s))) = preText s"
proof -
  have lines: "scanLines (Println s) = linesOf s"
    using assms(2) by (simp add: scanLines_Println)
  have conv: "convertLines (linesOf s) \<lparr>inHtml = False, isFirstTextLine = True\<rparr> =
      (PreOpen # map TextLine (linesOf s), \<lparr>inHtml = False, isFirstTextLine = False\<rparr>)"
    using assms(2) by (simp add: convertLines_text linesOf_nonempty)
  have toks: "fst (internalHTML False t (Println s)) =
      tokenText PreOpen # map (\<lambda>l. l @ [NL]) (linesOf s) @ [tokenText PreClose]"
    unfolding internalHTML_def internalTokens_no_cache [OF assms(1)] lines conv
    by (simp add: comp_def)
  have "concat (tokenText PreOpen # map (\<lambda>l. l @ [NL]) (linesOf s) @ [tokenText PreClose]) =
      preText s"
    by (simp add: linesOf_concat preText_def)
  with toks show ?thesis by simp
qed

theorem plain_text_rendering_witness:
  "concat (fst (internalHTML False NewTerm (Println ''hi''))) =
     ''<pre class='' @ [CHR 0x22] @ ''goterm'' @ [CHR 0x22] @ ''>\<newline>hi\<newline></pre>\<newline>''"
proof -
  have "\<forall>l \<in> set (linesOf ''hi'').
      \<not> HasSuffix l HtmlTag \<and> \<not> HasSuffix l [CR] \<and> length l < MaxBuffersize"
    by (simp add: HasSuffix_def HtmlTag_length MaxBuffersize_def)
  moreover have "\<not> cacheOutput NewTerm"
    by (simp add: NewTerm_def)
  ultimately show ?thesis
    using plain_text_rendering [of NewTerm "''hi''"] by (simp add: preText_def)
qed

theorem plain_text_counterexample:
  "HtmlTag \<notin> set (linesOf [CHR ''a'', CR]) \<and>
   concat (fst (internalHTML False NewTerm (Println [CHR ''a'', CR]))) = preText ''a'' \<and>
   concat (fst (internalHTML False NewTerm (Println [CHR ''a'', CR]))) \<noteq> preText [CHR ''a'', CR] \<and>
   HtmlTag \<notin> set (linesOf (''x'' @ HtmlTag)) \<and>
   concat (fst (internalHTML False NewTerm (Println (''x'' @ HtmlTag)))) = [] \<and>
   concat (fst (internalHTML False NewTerm (Println (''x'' @ HtmlTag)))) \<noteq> preText (''x'' @ HtmlTag)"
proof -
  have nc: "\<not> cacheOutput NewTerm"
    by (simp add: NewTerm_def)
  have l1: "scanLines (Println [CHR ''a'', CR]) = [''a'']"
    using scanLines_line [of "[CHR ''a'', CR]" "[]"]
    by (simp add: Println_def MaxBuffersize_def dropCR_def)
  have l2: "scanLines (Println (''x'' @ HtmlTag)) = [''x'' @ HtmlTag]"
    using scanLines_line [of "''x'' @ HtmlTag" "[]"] HtmlTag_facts
    by (simp add: Println_def dropCR_def HtmlTag_def MaxBuffersize_def)
  have s1: "\<not> HasSuffix ''a'' HtmlTag"
    by (simp add: HasSuffix_short HtmlTag_length)
  have r1: "fst (internalHTML False NewTerm (Println [CHR ''a'', CR])) =
      [tokenText PreOpen, ''a\<newline>'', tokenText PreClose]"
    unfolding internalHTML_def internalTokens_no_cache [OF nc] l1
    by (simp add: convertLine_def s1)
  have r2: "fst (internalHTML False NewTerm (Println (''x'' @ HtmlTag))) = []"
    unfolding internalHTML_def internalTokens_no_cache [OF nc] l2
    using HasSuffix_append [of "''x''" HtmlTag] by (simp add: convertLine_def)
  have n1: "HtmlTag \<notin> set (linesOf [CHR ''a'', CR])"
    by (simp add: HtmlTag_def)
  have n2: "HtmlTag \<notin> set (linesOf (''x'' @ HtmlTag))"
    by (simp add: HtmlTag_def)
  show ?thesis
    unfolding r1 r2 using n1 n2 by (simp add: preText_def)
qed

text \<open>
  C5, as amended. \<open>PrintHtml\<close> writes the sentinel, a newline, the content, a newline, the
  sentinel and a newline. Collecting the fragment gives the lines of the content, each
  with a newline, that is the content and a newline, when no line of the content ends
  with the sentinel or with a carriage return and every line is shorter than
  \<open>MaxBuffersize\<close>.
\<close>

theorem encoded_fragment_rendering:
  assumes "\<not> cacheOutput t"
    and "\<forall>l \<in> set (linesOf html).
           \<not> HasSuffix l HtmlTag \<and> \<not> HasSuffix l [CR] \<and> length l < MaxBuffersize"
  shows "PrintHtml html = HtmlTag @ [NL] @ html @ [NL] @ HtmlTag @ [NL] \<and>
         fst (internalHTML False t (PrintHtml html)) = map (\<lambda>l. l @ [NL]) (linesOf html) \<and>
         concat (fst (internalHTML False t (PrintHtml html))) = html @ [NL]"
proof -
  have lines: "scanLines (PrintHtml html) = [HtmlTag] @ linesOf html @ [HtmlTag]"
    using assms(2) by (simp add: scanLines_PrintHtml)
  have conv: "convertLines ([HtmlTag] @ linesOf html @ [HtmlTag])
        \<lparr>inHtml = False, isFirstTextLine = True\<rparr> =
      (map HtmlLine (linesOf html), \<lparr>inHtml = False, isFirstTextLine = True\<rparr>)"
    unfolding convertLines_append
    using assms(2) by (simp add: convertLine_tag convertLines_html)
  have toks: "fst (internalHTML False t (PrintHtml html)) = map (\<lambda>l. l @ [NL]) (linesOf html)"
    unfolding internalHTML_def internalTokens_no_cache [OF assms(1)] lines conv
    by (simp add: comp_def)
  show ?thesis
    unfolding toks by (simp add: linesOf_concat PrintHtml_def Println_def escapeHtml_def)
qed

theorem encoded_fragment_rendering_witness:
  "fst (internalHTML False NewTerm (PrintHtml ''<span>hi</span>'')) = [''<span>hi</span>\<newline>'']"
proof -
  have h: "\<forall>l \<in> set (linesOf ''<span>hi</span>'').
      \<not> HasSuffix l HtmlTag \<and> \<not> HasSuffix l [CR] \<and> length l < MaxBuffersize"
    by (simp add: HasSuffix_def HtmlTag_length MaxBuffersize_def)
  have nc: "\<not> cacheOutput NewTerm"
    by (simp add: NewTerm_def)
  have "fst (internalHTML False NewTerm (PrintHtml ''<span>hi</span>'')) =
      map (\<lambda>l. l @ [NL]) (linesOf ''<span>hi</span>'')"
    using encoded_fragment_rendering [OF nc h] by blast
  then show ?thesis by simp
qed

theorem encoded_fragment_counterexample:
  "fst (internalHTML False NewTerm (PrintHtml (''<p>'' @ HtmlTag))) = [] \<and>
   concat (fst (internalHTML False NewTerm (PrintHtml (''<p>'' @ HtmlTag)))) \<noteq>
     (''<p>'' @ HtmlTag) @ [NL]"
proof -
  have nc: "\<not> cacheOutput NewTerm"
    by (simp add: NewTerm_def)
  have "\<forall>l \<in> set (linesOf (''<p>'' @ HtmlTag)). \<not> HasSuffix l [CR] \<and> length l < MaxBuffersize"
    by (simp add: HtmlTag_def HasSuffix_def MaxBuffersize_def)
  then have lines: "scanLines (PrintHtml (''<p>'' @ HtmlTag)) =
      HtmlTag # linesOf (''<p>'' @ HtmlTag) @ [HtmlTag]"
    by (rule scanLines_PrintHtml)
  have lo: "linesOf (''<p>'' @ HtmlTag) = [''<p>'' @ HtmlTag]"
    by (simp add: HtmlTag_def)
  have "fst (internalHTML False NewTerm (PrintHtml (''<p>'' @ HtmlTag))) = []"
    unfolding internalHTML_def internalTokens_no_cache [OF nc] lines lo
    using HasSuffix_append [of "''<p>''" HtmlTag] by (simp add: convertLine_def HasSuffix_self)
  then show ?thesis by simp
qed

lemma convertLines_plain_line:
  assumes "convertLines ls st = (out, st')"
    and "PreOpen \<in> set out \<or> PreClose \<in> set out \<or> \<not> isFirstTextLine st'"
  shows "\<not> isFirstTextLine st \<or>
         (\<exists>i < length ls. \<not> HasSuffix (ls ! i) HtmlTag \<and>
            (inHtml st = odd (length (filter (\<lambda>l. HasSuffix l HtmlTag) (take i ls)))))"
  using assms
proof (induction ls arbitrary: st out st')
  case Nil
  then show ?case by auto
next
  case (Cons l ls)
  obtain o1 s1 where step: "convertLine l st = (o1, s1)"
    by (cases "convertLine l st")
  obtain o2 s2 where rest: "convertLines ls s1 = (o2, s2)"
    by (cases "convertLines ls s1")
  have out: "out = o1 @ o2" and st': "st' = s2"
    using Cons.prems(1) step rest by auto
  show ?case
  proof (cases "isFirstTextLine st")
    case False
    then show ?thesis by simp
  next
    case first: True
    show ?thesis
    proof (cases "HasSuffix l HtmlTag")
      case tag: True
      have o1: "o1 = []" and s1: "inHtml s1 = (\<not> inHtml st)" "isFirstTextLine s1"
        using step tag first by (auto simp: convertLine_def)
      have "PreOpen \<in> set o2 \<or> PreClose \<in> set o2 \<or> \<not> isFirstTextLine s2"
        using Cons.prems(2) out st' o1 by simp
      from Cons.IH [OF rest this] s1 obtain i where i: "i < length ls"
        "\<not> HasSuffix (ls ! i) HtmlTag"
        "inHtml s1 = odd (length (filter (\<lambda>l. HasSuffix l HtmlTag) (take i ls)))"
        by auto
      have "Suc i < length (l # ls) \<and> \<not> HasSuffix ((l # ls) ! Suc i) HtmlTag \<and>
          (inHtml st = odd (length (filter (\<lambda>l. HasSuffix l HtmlTag) (take (Suc i) (l # ls)))))"
        using i s1 tag by simp
      then show ?thesis by blast
    next
      case notag: False
      show ?thesis
      proof (cases "inHtml st")
        case html: True
        have o1: "o1 = [HtmlLine l]" and s1: "s1 = st"
          using step notag html by (auto simp: convertLine_def)
        have "PreOpen \<in> set o2 \<or> PreClose \<in> set o2 \<or> \<not> isFirstTextLine s2"
          using Cons.prems(2) out st' o1 by simp
        from Cons.IH [OF rest this] s1 first obtain i where i: "i < length ls"
          "\<not> HasSuffix (ls ! i) HtmlTag"
          "inHtml st = odd (length (filter (\<lambda>l. HasSuffix l HtmlTag) (take i ls)))"
          by auto
        have "Suc i < length (l # ls) \<and> \<not> HasSuffix ((l # ls) ! Suc i) HtmlTag \<and>
            (inHtml st = odd (length (filter (\<lambda>l. HasSuffix l HtmlTag) (take (Suc i) (l # ls)))))"
          using i notag by simp
        then show ?thesis by blast
      next
        case False
        then have "0 < length (l # ls) \<and> \<not> HasSuffix ((l # ls) ! 0) HtmlTag \<and>
            (inHtml st = odd (length (filter (\<lambda>l. HasSuffix l HtmlTag) (take 0 (l # ls)))))"
          using notag by simp
        then show ?thesis by blast
      qed
    qed
  qed
qed

text \<open>
  C10. Without a cache, an empty stream converts to no token in fragment mode and to the
  page prefix followed by the page suffix in full-page mode. For every stream and cache:
  when the opener or the closer of a preformatted block is among the tokens, a plain-text
  line was read (a line that is not a tag line, after an even number of tag lines).
\<close>

theorem empty_stream_tokens:
  "(\<not> cacheOutput t \<longrightarrow>
      fst (internalHTML False t []) = [] \<and>
      fst (internalHTML True t []) = [getHtmlPagePrefix, getHtmlPageSuffix]) \<and>
   (PreOpen \<in> set (fst (internalTokens page t live)) \<or>
    PreClose \<in> set (fst (internalTokens page t live)) \<longrightarrow>
      (\<exists>i. plainTextLineAt (linesRead t live) i))"
proof -
  have empty: "\<not> cacheOutput t \<longrightarrow>
      fst (internalHTML False t []) = [] \<and>
      fst (internalHTML True t []) = [getHtmlPagePrefix, getHtmlPageSuffix]"
    by (simp add: internalHTML_def internalTokens_no_cache)
  have plain: "\<exists>i. plainTextLineAt (linesRead t live) i"
    if emitted: "PreOpen \<in> set (fst (internalTokens page t live)) \<or>
      PreClose \<in> set (fst (internalTokens page t live))"
  proof -
    obtain out st where conv:
      "convertLines (linesRead t live) \<lparr>inHtml = False, isFirstTextLine = True\<rparr> = (out, st)"
      by (cases "convertLines (linesRead t live) \<lparr>inHtml = False, isFirstTextLine = True\<rparr>")
    have toks: "fst (internalTokens page t live) =
        (if page then [PagePrefix] else []) @ out @
        (if \<not> inHtml st \<and> \<not> isFirstTextLine st then [PreClose] else []) @
        (if page then [PageSuffix] else [])"
      using conv by (simp add: internalTokens_def linesRead_def Let_def)
    have "PreOpen \<in> set out \<or> PreClose \<in> set out \<or> \<not> isFirstTextLine st"
      using emitted unfolding toks by (auto split: if_splits)
    from convertLines_plain_line [OF conv this] show ?thesis
      by (auto simp: plainTextLineAt_def)
  qed
  from empty plain show ?thesis by blast
qed

theorem empty_stream_tokens_witness:
  "fst (internalHTML False NewTerm []) = [] \<and>
   fst (internalHTML True NewTerm []) = [getHtmlPagePrefix, getHtmlPageSuffix] \<and>
   PreOpen \<in> set (fst (internalTokens False NewTerm (Println ''a''))) \<and>
   plainTextLineAt (linesRead NewTerm (Println ''a'')) 0"
proof -
  have nc: "\<not> cacheOutput NewTerm"
    by (simp add: NewTerm_def)
  have l: "scanLines (Println ''a'') = [''a'']"
    using scanLines_line [of "''a''" "[]"] by (simp add: Println_def MaxBuffersize_def dropCR_def)
  have s: "\<not> HasSuffix ''a'' HtmlTag"
    by (simp add: HasSuffix_short HtmlTag_length)
  have a: "PreOpen \<in> set (fst (internalTokens False NewTerm (Println ''a'')))"
    unfolding internalTokens_no_cache [OF nc] l by (simp add: convertLine_def s)
  have b: "plainTextLineAt (linesRead NewTerm (Println ''a'')) 0"
    using nc s by (simp add: plainTextLineAt_def linesRead_def l)
  show ?thesis
    using empty_stream_tokens [of NewTerm False "Println ''a''"] nc a b by simp
qed

section \<open>Properties of the buffer\<close>

lemma write_pending:
  assumes "Buffer_WriteString s b = Return (n, b')"
  shows "n = length s" and "pending b' = pending b @ s" and "ch_closed b' = ch_closed b"
  using assms by (auto simp: Buffer_WriteString_def pending_def split: if_splits)

lemma take_drop_rest: "take n (drop p xs) @ drop (p + n) xs = drop p xs"
proof -
  have "drop (p + n) xs = drop n (drop p xs)"
    by (simp add: add.commute)
  then show ?thesis
    by (simp only: append_take_drop_id)
qed

lemma read_pending:
  assumes "Buffer_Read n b = Return (Some bs, b')"
  shows "bs @ pending b' = pending b" and "ch_closed b' = ch_closed b" and "length bs \<le> n"
  using assms
  by (auto simp: Buffer_Read_def copyOut_def pending_def Let_def min_def
        take_drop_rest
      split: if_splits list.splits)

lemma read_eof:
  assumes "Buffer_Read n b = Return (None, b')"
  shows "ch_closed b" and "pending b = []" and "b' = b"
  using assms
  by (auto simp: Buffer_Read_def copyOut_def pending_def Let_def split: if_splits list.splits)

lemma read_closed:
  assumes "ch_closed b"
  shows "Buffer_Read n b = Return (None, b) \<or> (\<exists>bs b'. Buffer_Read n b = Return (Some bs, b'))"
  using assms by (auto simp: Buffer_Read_def copyOut_def Let_def split: list.splits)

lemma readAll_closed:
  assumes "ch_closed b"
  shows "\<exists>d. readAll sz i b = Return (pending b, d) \<and> ch_closed d \<and> pending d = [] \<and>
              Buffer_Read k d = Return (None, d)"
  using assms
proof (induction sz i b rule: readAll.induct)
  case (1 sz i b)
  from read_closed [OF "1.prems", of "Suc (sz i)"] show ?case
  proof
    assume eof: "Buffer_Read (Suc (sz i)) b = Return (None, b)"
    then have "pending b = []"
      by (rule read_eof)
    moreover have "Buffer_Read k b = Return (None, b)"
      using eof by (auto simp: Buffer_Read_def copyOut_def Let_def split: if_splits list.splits)
    ultimately show ?thesis
      using eof "1.prems" by (subst readAll.simps) simp
  next
    assume "\<exists>bs b'. Buffer_Read (Suc (sz i)) b = Return (Some bs, b')"
    then obtain bs b' where rd: "Buffer_Read (Suc (sz i)) b = Return (Some bs, b')"
      by blast
    have cl: "ch_closed b'"
      using read_pending(2) [OF rd] "1.prems" by simp
    from "1.IH" [OF rd refl refl cl] obtain d where
      d: "readAll sz (Suc i) b' = Return (pending b', d)" "ch_closed d" "pending d = []"
         "Buffer_Read k d = Return (None, d)"
      by blast
    have "readAll sz i b = Return (bs @ pending b', d)"
      using rd d(1) by (subst readAll.simps) simp
    then show ?thesis
      using read_pending(1) [OF rd] d by simp
  qed
qed

lemma writeAll_pending:
  assumes "writeAll ws b = Return b'"
  shows "pending b' = pending b @ concat ws \<and> ch_closed b' = ch_closed b"
  using assms
proof (induction ws arbitrary: b)
  case Nil
  then show ?case by simp
next
  case (Cons s ss)
  from Cons.prems obtain n c where w: "Buffer_WriteString s b = Return (n, c)"
    and rest: "writeAll ss c = Return b'"
    by (auto split: outcome.splits)
  from Cons.IH [OF rest] write_pending(2,3) [OF w] show ?case
    by simp
qed

lemma writeAll_accepted:
  assumes "\<not> ch_closed b" and "length (ch b) + length ws \<le> ch_cap b"
  shows "\<exists>b'. writeAll ws b = Return b'"
  using assms
proof (induction ws arbitrary: b)
  case Nil
  then show ?case by simp
next
  case (Cons s ss)
  let ?c = "b\<lparr>ch := ch b @ [s]\<rparr>"
  have w: "Buffer_WriteString s b = Return (length s, ?c)"
    using Cons.prems by (simp add: Buffer_WriteString_def)
  have "\<exists>b'. writeAll ss ?c = Return b'"
    using Cons.prems by (intro Cons.IH) simp_all
  then show ?case
    using w by simp
qed

text \<open>
  C6. A write that is accepted appends its chunk to the bytes not yet read; a read
  returns bytes from their front; a read signals the end of the stream only when the
  buffer is closed and nothing is left. Chunks written to an open buffer with room for
  them, followed by \<open>Close\<close>: a further write is refused (it panics), reading to the
  end returns the bytes that were pending followed by the chunks in the order of the
  writes, and the next read signals the end of the stream.
\<close>

theorem buffer_fifo_close_eof:
  "(Buffer_WriteString s b = Return (n, b') \<longrightarrow> n = length s \<and> pending b' = pending b @ s) \<and>
   (Buffer_Read k b = Return (Some bs, b') \<longrightarrow> bs @ pending b' = pending b) \<and>
   (Buffer_Read k b = Return (None, b') \<longrightarrow> ch_closed b \<and> pending b = []) \<and>
   (\<not> ch_closed b \<and> length (ch b) + length ws \<le> ch_cap b \<longrightarrow>
      (\<exists>c d e. writeAll ws b = Return c \<and> Buffer_Close c = Return d \<and>
         Buffer_WriteString s d = Panic ''send on closed channel'' \<and>
         readAll sz i d = Return (pending b @ concat ws, e) \<and>
         Buffer_Read k e = Return (None, e)))"
proof -
  have drain: "\<exists>c d e. writeAll ws b = Return c \<and> Buffer_Close c = Return d \<and>
         Buffer_WriteString s d = Panic ''send on closed channel'' \<and>
         readAll sz i d = Return (pending b @ concat ws, e) \<and>
         Buffer_Read k e = Return (None, e)"
    if "\<not> ch_closed b" and "length (ch b) + length ws \<le> ch_cap b"
  proof -
    from writeAll_accepted [OF that] obtain c where c: "writeAll ws b = Return c"
      by blast
    have pc: "pending c = pending b @ concat ws" and open_c: "\<not> ch_closed c"
      using writeAll_pending [OF c] that(1) by simp_all
    let ?d = "c\<lparr>ch_closed := True\<rparr>"
    have d: "Buffer_Close c = Return ?d"
      using open_c by (simp add: Buffer_Close_def)
    have w: "Buffer_WriteString s ?d = Panic ''send on closed channel''"
      by (simp add: Buffer_WriteString_def)
    have pd: "pending ?d = pending c"
      by (simp add: pending_def)
    have "ch_closed ?d" by simp
    from readAll_closed [OF this, of sz i k] obtain e where
      "readAll sz i ?d = Return (pending ?d, e)" "Buffer_Read k e = Return (None, e)"
      by blast
    with c d w pc pd show ?thesis
      by auto
  qed
  show ?thesis
    using write_pending(1,2) [of s b n b'] read_pending(1) [of k b bs b'] read_eof(1,2) [of k b b']
      drain
    by blast
qed

theorem buffer_fifo_close_eof_witness:
  "\<exists>c d e. writeAll [''ab'', ''cd''] (NewBufferSize 4) = Return c \<and> Buffer_Close c = Return d \<and>
     Buffer_WriteString ''x'' d = Panic ''send on closed channel'' \<and>
     readAll (\<lambda>i. 2) 0 d = Return (''abcd'', e) \<and> Buffer_Read 3 e = Return (None, e)"
proof -
  let ?b = "NewBufferSize 4"
  have pre: "\<not> ch_closed ?b \<and> length (ch ?b) + length [''ab'', ''cd''] \<le> ch_cap ?b"
    by (simp add: NewBufferSize_def)
  have p: "pending ?b @ concat [''ab'', ''cd''] = ''abcd''"
    by (simp add: NewBufferSize_def pending_def)
  show ?thesis
    using buffer_fifo_close_eof [of "''x''" ?b 0 ?b 3 "[]" "[''ab'', ''cd'']" "\<lambda>i. 2" 0] pre
    unfolding p by blast
qed

section \<open>Properties of the session\<close>

lemma applyOption_keeps:
  "buf (applyOption x t) = buf t \<and> opened (applyOption x t) = opened t \<and>
   closed (applyOption x t) = closed t"
  by (cases x) simp_all

lemma options_keep:
  "buf (foldl (\<lambda>t' option. applyOption option t') t options) = buf t \<and>
   opened (foldl (\<lambda>t' option. applyOption option t') t options) = opened t \<and>
   closed (foldl (\<lambda>t' option. applyOption option t') t options) = closed t"
  by (induction options arbitrary: t) (simp_all add: applyOption_keeps)

lemma internalHTML_keeps:
  "buf (snd (internalHTML page t live)) = buf t \<and> closed (snd (internalHTML page t live)) = closed t"
  by (simp add: internalHTML_def internalTokens_def Let_def split: prod.splits)

lemma perform_consistent:
  assumes "consistent s" and "perform c s = Return s'"
  shows "consistent s'"
proof (cases c)
  case (CallOpen options)
  with assms show ?thesis
    by (auto simp: consistent_def pkg_Open_def Term_Open_def options_keep NewTerm_def
        split: if_splits outcome.splits)
next
  case CallClose
  with assms show ?thesis
    by (auto simp: consistent_def pkg_Close_def Term_Close_def Buffer_Close_def
        split: if_splits outcome.splits)
next
  case (CallHTML page live)
  with assms internalHTML_keeps [of page "pkg_term s" live] show ?thesis
    by (auto simp: consistent_def pkg_HTML_def Term_HTML_def
        split: if_splits outcome.splits prod.splits)
next
  case (CallStdout p)
  with assms show ?thesis
    by (auto simp: consistent_def forwardStdout_def Buffer_Write_def Buffer_WriteString_def
        split: if_splits outcome.splits prod.splits)
next
  case (CallStderr p)
  with assms show ?thesis
    by (auto simp: consistent_def forwardStderr_def Buffer_Write_def Buffer_WriteString_def
        split: if_splits outcome.splits prod.splits)
qed

lemma after_consistent: "consistent s \<Longrightarrow> consistent (after cs s)"
proof (induction cs arbitrary: s)
  case Nil
  then show ?case by simp
next
  case (Cons c cs)
  show ?case
  proof (cases "perform c s")
    case (Return s')
    with Cons show ?thesis
      by (simp add: perform_consistent)
  qed (use Cons in simp_all)
qed

lemma start_consistent: "consistent start"
  by (simp add: consistent_def start_def NewTerm_def)
lemma after_open:
  "after [CallOpen [Format Custom]] start =
     start\<lparr>pkg_term := NewTerm\<lparr>opened := True, format := Custom\<rparr>\<rparr>"
  by (simp add: pkg_Open_def Term_Open_def start_def NewTerm_def)

lemma after_open_close:
  "after [CallOpen [Format Custom], CallClose] start =
     start\<lparr>pkg_term := NewTerm\<lparr>buf := NewBuffer\<lparr>ch_closed := True\<rparr>, opened := True,
       closed := True, format := Custom\<rparr>\<rparr>"
  by (simp add: pkg_Open_def Term_Open_def pkg_Close_def Term_Close_def Buffer_Close_def
      start_def NewTerm_def NewBuffer_def NewBufferSize_def)
text \<open>
  C7. \<open>Open\<close> on a session whose flag \<open>opened\<close> is set panics. In every state that the
  calls of a program reach from the start (calls that panicked included), \<open>Open\<close> on the
  open session panics, and \<open>Close\<close> on the closed session panics: the buffer's channel is
  already closed.
\<close>

theorem double_open_double_close_panic:
  "(opened t \<longrightarrow> Term_Open options t = Panic ''terminal is already opened'') \<and>
   (opened (pkg_term (after cs start)) \<and> \<not> closed (pkg_term (after cs start)) \<longrightarrow>
      pkg_Open options (after cs start) = Panic ''terminal is already opened'') \<and>
   (closed (pkg_term (after cs start)) \<longrightarrow>
      Term_Close (pkg_term (after cs start)) = Panic ''close of closed channel'' \<and>
      pkg_Close (after cs start) = Panic ''close of closed channel'')"
proof -
  have "consistent (after cs start)"
    by (simp add: after_consistent start_consistent)
  then show ?thesis
    by (simp add: consistent_def Term_Open_def pkg_Open_def pkg_Close_def Term_Close_def
        Buffer_Close_def)
qed

theorem double_open_double_close_panic_witness:
  "pkg_Open [Format Custom] (after [CallOpen [Format Custom]] start) =
     Panic ''terminal is already opened'' \<and>
   pkg_Close (after [CallOpen [Format Custom], CallClose] start) =
     Panic ''close of closed channel'' \<and>
   pkg_Close (after [CallOpen [Format Custom], CallClose, CallClose] start) =
     Panic ''close of closed channel''"
proof -
  have a: "opened (pkg_term (after [CallOpen [Format Custom]] start)) \<and>
      \<not> closed (pkg_term (after [CallOpen [Format Custom]] start))"
    unfolding after_open by (simp add: NewTerm_def)
  have b: "closed (pkg_term (after [CallOpen [Format Custom], CallClose] start))"
    unfolding after_open_close by simp
  have "perform CallClose (after [CallOpen [Format Custom], CallClose] start) =
      Panic ''close of closed channel''"
    using double_open_double_close_panic [of NewTerm "[]" "[CallOpen [Format Custom], CallClose]"] b
    by simp
  then have c: "after [CallOpen [Format Custom], CallClose, CallClose] start =
      after [CallOpen [Format Custom], CallClose] start"
    by simp
  show ?thesis
    using double_open_double_close_panic
        [of NewTerm "[Format Custom]" "[CallOpen [Format Custom]]"]
      double_open_double_close_panic [of NewTerm "[]" "[CallOpen [Format Custom], CallClose]"]
      a b
    unfolding c by simp
qed

text \<open>
  C8. \<open>HTML\<close> panics when the format of the session is not \<open>Custom\<close>, and returns the
  tokens of \<open>internalHTML\<close> when it is.
\<close>

theorem HTML_only_in_custom_format:
  "(format t \<noteq> Custom \<longrightarrow>
      Term_HTML page t live = Panic ''format must be CustomFormat when calling HTML()'') \<and>
   (format t = Custom \<longrightarrow> Term_HTML page t live = Return (internalHTML page t live)) \<and>
   (format (pkg_term s) \<noteq> Custom \<longrightarrow>
      pkg_HTML page s live = Panic ''format must be CustomFormat when calling HTML()'') \<and>
   (format (pkg_term s) = Custom \<longrightarrow>
      pkg_HTML page s live =
        Return (fst (internalHTML page (pkg_term s) live),
                s\<lparr>pkg_term := snd (internalHTML page (pkg_term s) live)\<rparr>))"
  by (simp add: Term_HTML_def pkg_HTML_def split: prod.splits)

theorem HTML_only_in_custom_format_witness:
  "Term_HTML False (NewTerm\<lparr>format := HTMLWindow\<rparr>) [] =
     Panic ''format must be CustomFormat when calling HTML()'' \<and>
   Term_HTML False (NewTerm\<lparr>format := HTMLPage\<rparr>) [] =
     Panic ''format must be CustomFormat when calling HTML()'' \<and>
   Term_HTML False (NewTerm\<lparr>format := HTMLContent\<rparr>) [] =
     Panic ''format must be CustomFormat when calling HTML()'' \<and>
   Term_HTML False (NewTerm\<lparr>format := Raw\<rparr>) [] =
     Panic ''format must be CustomFormat when calling HTML()'' \<and>
   Term_HTML False (NewTerm\<lparr>format := Custom\<rparr>) [] = Return ([], NewTerm\<lparr>format := Custom\<rparr>)"
  using HTML_only_in_custom_format [of "NewTerm\<lparr>format := HTMLWindow\<rparr>" False "[]" start]
    HTML_only_in_custom_format [of "NewTerm\<lparr>format := HTMLPage\<rparr>" False "[]" start]
    HTML_only_in_custom_format [of "NewTerm\<lparr>format := HTMLContent\<rparr>" False "[]" start]
    HTML_only_in_custom_format [of "NewTerm\<lparr>format := Raw\<rparr>" False "[]" start]
    HTML_only_in_custom_format [of "NewTerm\<lparr>format := Custom\<rparr>" False "[]" start]
  by (simp add: internalHTML_def internalTokens_def NewTerm_def)

text \<open>
  What a forwarding goroutine does with a piece it is given: it copies the piece into the
  buffer, and also to its original stream when the format of the session is \<open>Raw\<close>. The
  field \<open>attachOutput\<close> is not consulted. While the buffer is open and has room, the copy
  takes place.
\<close>

lemma forward_effect:
  "(forwardStdout p s = Return s' \<longrightarrow>
      pending (buf (pkg_term s')) = pending (buf (pkg_term s)) @ p \<and>
      sysStdout s' = (if format (pkg_term s) = Raw then sysStdout s @ p else sysStdout s) \<and>
      sysStderr s' = sysStderr s) \<and>
   (forwardStderr p s = Return s' \<longrightarrow>
      pending (buf (pkg_term s')) = pending (buf (pkg_term s)) @ p \<and>
      sysStderr s' = (if format (pkg_term s) = Raw then sysStderr s @ p else sysStderr s) \<and>
      sysStdout s' = sysStdout s) \<and>
   (\<not> ch_closed (buf (pkg_term s)) \<and> length (ch (buf (pkg_term s))) < ch_cap (buf (pkg_term s)) \<longrightarrow>
      (\<exists>r. forwardStdout p s = Return r) \<and> (\<exists>r. forwardStderr p s = Return r))"
proof -
  have out: "pending (buf (pkg_term s')) = pending (buf (pkg_term s)) @ p \<and>
      sysStdout s' = (if format (pkg_term s) = Raw then sysStdout s @ p else sysStdout s) \<and>
      sysStderr s' = sysStderr s"
    if "forwardStdout p s = Return s'"
  proof -
    from that obtain n b where w: "Buffer_WriteString p (buf (pkg_term s)) = Return (n, b)"
      and s': "s' = s\<lparr>pkg_term := (pkg_term s)\<lparr>buf := b\<rparr>,
                 sysStdout := (if format (pkg_term s) = Raw then sysStdout s @ p else sysStdout s)\<rparr>"
      by (auto simp: forwardStdout_def Buffer_Write_def split: outcome.splits)
    show ?thesis
      using write_pending(2) [OF w] by (simp add: s')
  qed
  have err: "pending (buf (pkg_term s')) = pending (buf (pkg_term s)) @ p \<and>
      sysStderr s' = (if format (pkg_term s) = Raw then sysStderr s @ p else sysStderr s) \<and>
      sysStdout s' = sysStdout s"
    if "forwardStderr p s = Return s'"
  proof -
    from that obtain n b where w: "Buffer_WriteString p (buf (pkg_term s)) = Return (n, b)"
      and s': "s' = s\<lparr>pkg_term := (pkg_term s)\<lparr>buf := b\<rparr>,
                 sysStderr := (if format (pkg_term s) = Raw then sysStderr s @ p else sysStderr s)\<rparr>"
      by (auto simp: forwardStderr_def Buffer_Write_def split: outcome.splits)
    show ?thesis
      using write_pending(2) [OF w] by (simp add: s')
  qed
  have room: "(\<exists>r. forwardStdout p s = Return r) \<and> (\<exists>r. forwardStderr p s = Return r)"
    if "\<not> ch_closed (buf (pkg_term s)) \<and> length (ch (buf (pkg_term s))) < ch_cap (buf (pkg_term s))"
    using that
    by (simp add: forwardStdout_def forwardStderr_def Buffer_Write_def Buffer_WriteString_def)
  from out err room show ?thesis by blast
qed

text \<open>
  The stream of the scenario with the lines \<open>a\<close>, \<open><b>x</b>\<close> and \<open>b\<close> is what the
  buffer of the session delivers after \<open>Open(Format(Custom))\<close>, the three writes and
  \<open>Close\<close>, whatever the sizes of the reads.
\<close>

lemma captured_stream:
  "\<exists>d. readAll sz i
          (buf (pkg_term (after [CallOpen [Format Custom], CallStdout (Println ''a''),
             CallStdout (PrintHtml ''<b>x</b>''), CallStdout (Println ''b''), CallClose] start))) =
        Return (Println ''a'' @ PrintHtml ''<b>x</b>'' @ Println ''b'', d)"
proof -
  let ?s = "after [CallOpen [Format Custom], CallStdout (Println ''a''),
      CallStdout (PrintHtml ''<b>x</b>''), CallStdout (Println ''b''), CallClose] start"
  have b: "buf (pkg_term ?s) =
      \<lparr>ch = [Println ''a'', PrintHtml ''<b>x</b>'', Println ''b''], ch_cap = bufferSize,
       ch_closed = True, str = [], pos = 0\<rparr>"
    by (simp add: pkg_Open_def Term_Open_def pkg_Close_def Term_Close_def Buffer_Close_def
        forwardStdout_def Buffer_Write_def Buffer_WriteString_def start_def NewTerm_def
        NewBuffer_def NewBufferSize_def bufferSize_def)
  let ?b = "\<lparr>ch = [Println ''a'', PrintHtml ''<b>x</b>'', Println ''b''], ch_cap = bufferSize,
      ch_closed = True, str = [], pos = 0\<rparr>"
  have "ch_closed ?b"
    by simp
  from readAll_closed [OF this, of sz i 1] obtain d where
    "readAll sz i ?b = Return (pending ?b, d)"
    by blast
  moreover have "pending ?b = Println ''a'' @ PrintHtml ''<b>x</b>'' @ Println ''b''"
    by (simp add: pending_def)
  ultimately have "readAll sz i ?b =
      Return (Println ''a'' @ PrintHtml ''<b>x</b>'' @ Println ''b'', d)"
    by (simp only:)
  then show ?thesis
    unfolding b by (rule exI)
qed

text \<open>
  C3. The code at the input where it departs from the claim. \<open>Detach\<close> is documented as
  detaching the session from the standard output and standard error of the process, and
  the claim lets the attach option decide whether output is mirrored. After
  \<open>Open(Format(Raw), Detach())\<close> the session is the same as after \<open>Open(Format(Raw))\<close>, its
  attach option is not set, and what the program writes is copied into the buffer and
  still reaches the original standard output and standard error.
\<close>

theorem detach_still_mirrors:
  "pkg_term (after [CallOpen [Format Raw, Detach]] start) =
     pkg_term (after [CallOpen [Format Raw]] start) \<and>
   \<not> attachOutput (pkg_term (after [CallOpen [Format Raw, Detach]] start)) \<and>
   pending (buf (pkg_term (after [CallOpen [Format Raw, Detach], CallStdout ''out''] start))) =
     ''out'' \<and>
   sysStdout (after [CallOpen [Format Raw, Detach], CallStdout ''out''] start) = ''out'' \<and>
   sysStderr (after [CallOpen [Format Raw, Detach], CallStderr ''err''] start) = ''err''"
  by (simp add: pkg_Open_def Term_Open_def start_def NewTerm_def forwardStdout_def
      forwardStderr_def Buffer_Write_def Buffer_WriteString_def NewBuffer_def NewBufferSize_def
      bufferSize_def pending_def)

section \<open>Properties of blocks\<close>

lemma HasPrefix_append: "HasPrefix (p @ s) p"
  by (simp add: HasPrefix_def)









end
